theory Spec2Isabelle
  imports Main
begin

section \<open>The session-establishment orchestrator of \<open>src/App.tsx\<close>\<close>

text \<open>
  The component \<open>App\<close> holds six pieces of React state and three handlers
  (\<open>handleRoomUrl\<close>, \<open>start\<close>, \<open>leave\<close>). A handler is modelled as a function from the
  values its closure reads and the way its awaited calls settle to the list of effects it
  performs, in program order. Strings are byte lists; the two characters the room-URL
  test singles out are ASCII, so a character outside ASCII is a run of bytes none of
  which is a dot or a slash.
\<close>

subsection \<open>Regular expressions and \<open>RegExp.prototype.test\<close> on an anchored pattern\<close>

datatype rexp =
    RNone
  | REps
  | RChr char
  | RNot char  \<comment> \<open>the negated class \<open>[^c]\<close>\<close>
  | RAlt rexp rexp
  | RSeq rexp rexp
  | RStar rexp

definition ROpt :: "rexp \<Rightarrow> rexp" where
  \<comment> \<open>\<open>r?\<close>\<close>
  "ROpt r = RAlt r REps"

definition RPlus :: "rexp \<Rightarrow> rexp" where
  \<comment> \<open>\<open>r+\<close>\<close>
  "RPlus r = RSeq r (RStar r)"

fun RWord :: "string \<Rightarrow> rexp" where
  "RWord [] = REps"
| "RWord (c # cs) = RSeq (RChr c) (RWord cs)"

fun nullable :: "rexp \<Rightarrow> bool" where
  "nullable RNone = False"
| "nullable REps = True"
| "nullable (RChr c) = False"
| "nullable (RNot c) = False"
| "nullable (RAlt r s) = (nullable r \<or> nullable s)"
| "nullable (RSeq r s) = (nullable r \<and> nullable s)"
| "nullable (RStar r) = True"

fun deriv :: "char \<Rightarrow> rexp \<Rightarrow> rexp" where
  "deriv a RNone = RNone"
| "deriv a REps = RNone"
| "deriv a (RChr c) = (if a = c then REps else RNone)"
| "deriv a (RNot c) = (if a = c then RNone else REps)"
| "deriv a (RAlt r s) = RAlt (deriv a r) (deriv a s)"
| "deriv a (RSeq r s) =
     (if nullable r then RAlt (RSeq (deriv a r) s) (deriv a s) else RSeq (deriv a r) s)"
| "deriv a (RStar r) = RSeq (deriv a r) (RStar r)"

fun derivs :: "rexp \<Rightarrow> string \<Rightarrow> rexp" where
  "derivs r [] = r"
| "derivs r (a # w) = derivs (deriv a r) w"

definition regex_test :: "rexp \<Rightarrow> string \<Rightarrow> bool" where
  \<comment> \<open>\<open>/^(r)$/.test(s)\<close>: the whole of \<open>s\<close> is matched by \<open>r\<close>\<close>
  "regex_test r s = nullable (derivs r s)"

text \<open>The words a regular expression denotes, against which the matcher is proved.\<close>

definition conc :: "string set \<Rightarrow> string set \<Rightarrow> string set" where
  "conc A B = {u @ v | u v. u \<in> A \<and> v \<in> B}"

inductive_set star :: "string set \<Rightarrow> string set" for A :: "string set" where
  star_nil: "[] \<in> star A"
| star_app: "u \<in> A \<Longrightarrow> v \<in> star A \<Longrightarrow> u @ v \<in> star A"

fun lang :: "rexp \<Rightarrow> string set" where
  "lang RNone = {}"
| "lang REps = {[]}"
| "lang (RChr c) = {[c]}"
| "lang (RNot c) = {[d] | d. d \<noteq> c}"
| "lang (RAlt r s) = lang r \<union> lang s"
| "lang (RSeq r s) = conc (lang r) (lang s)"
| "lang (RStar r) = star (lang r)"

subsection \<open>The room-URL validator (lines 46-47)\<close>

definition room_url_re :: rexp where
  \<comment> \<open>\<open>/^(https?:\/\/[^.]+\.daily\.co\/[^/]+)$/\<close>\<close>
  "room_url_re =
     RSeq (RWord ''http'') (RSeq (ROpt (RChr CHR ''s'')) (RSeq (RWord ''://'')
       (RSeq (RPlus (RNot CHR ''.'')) (RSeq (RWord ''.daily.co/'') (RPlus (RNot CHR ''/''))))))"

definition checkRoomUrl :: "string option \<Rightarrow> bool" where
  \<comment> \<open>\<open>!!(url && re.test(url))\<close>: null and the empty string are falsy\<close>
  "checkRoomUrl url =
     (case url of None \<Rightarrow> False | Some u \<Rightarrow> u \<noteq> [] \<and> regex_test room_url_re u)"

text \<open>
  The shape the specification describes in words: the protocol, one subdomain label
  before the provider domain, one path segment, no trailing slash. A label is a non-empty
  name with neither a dot (which would make it several labels) nor a slash (which would
  end the host); a path segment is a non-empty name without a slash.
\<close>

definition host_label :: "string \<Rightarrow> bool" where
  "host_label s = (s \<noteq> [] \<and> CHR ''.'' \<notin> set s \<and> CHR ''/'' \<notin> set s)"

definition path_segment :: "string \<Rightarrow> bool" where
  "path_segment s = (s \<noteq> [] \<and> CHR ''/'' \<notin> set s)"

definition single_level_room_url :: "string \<Rightarrow> bool" where
  "single_level_room_url s =
     (\<exists>p sub seg. (p = ''http'' \<or> p = ''https'') \<and> host_label sub \<and> path_segment seg \<and>
        s = p @ ''://'' @ sub @ ''.daily.co/'' @ seg)"

text \<open>What the pattern accepts: the text before the provider domain is any non-empty
  run without a dot.\<close>

definition dotless :: "string \<Rightarrow> bool" where
  "dotless s = (s \<noteq> [] \<and> CHR ''.'' \<notin> set s)"

definition pattern_shape :: "string \<Rightarrow> bool" where
  "pattern_shape s =
     (\<exists>p sub seg. (p = ''http'' \<or> p = ''https'') \<and> dotless sub \<and> path_segment seg \<and>
        s = p @ ''://'' @ sub @ ''.daily.co/'' @ seg)"

subsection \<open>JavaScript values\<close>

text \<open>
  The provisioning response \<open>data\<close> is whatever \<open>fetch_start_agent\<close> returns, a parsed
  JSON document, so the model has all of JSON and \<open>undefined\<close>. An object is the list of its
  own properties, each read at its first binding. The program observes a number only by
  testing it for truthiness and by printing it into a message, so a number is held as the
  text JavaScript prints for it (\<open>42\<close>, \<open>0.5\<close>, \<open>1e+21\<close>); that text determines the number up to
  the sign of zero, and both zeros print as \<open>0\<close>.
\<close>

datatype js =
    JUndefined
  | JNull
  | JBool bool
  | JNum string  \<comment> \<open>the number that prints as this text\<close>
  | JStr string
  | JArr "js list"
  | JObj "(string \<times> js) list"

fun truthy :: "js \<Rightarrow> bool" where
  "truthy JUndefined = False"
| "truthy JNull = False"
| "truthy (JBool b) = b"
| "truthy (JNum n) = (n \<noteq> ''0'' \<and> n \<noteq> ''NaN'')"
| "truthy (JStr s) = (s \<noteq> [])"
| "truthy (JArr xs) = True"
| "truthy (JObj kvs) = True"

fun nullish :: "js \<Rightarrow> bool" where
  "nullish JUndefined = True"
| "nullish JNull = True"
| "nullish v = False"

fun is_str :: "js \<Rightarrow> bool" where
  "is_str (JStr s) = True"
| "is_str v = False"

fun field :: "js \<Rightarrow> string \<Rightarrow> js" where
  \<comment> \<open>\<open>v.k\<close> for a \<open>v\<close> that is neither null nor undefined, at the property names the
      program reads (\<open>error\<close>, \<open>result\<close>, \<open>url\<close>, \<open>token\<close>, \<open>room_url\<close>), none of them built in\<close>
  "field (JObj kvs) k = (case map_of kvs k of None \<Rightarrow> JUndefined | Some v \<Rightarrow> v)"
| "field v k = JUndefined"

definition get :: "js \<Rightarrow> string \<Rightarrow> js option" where
  \<comment> \<open>\<open>v.k\<close>; \<open>None\<close> is the TypeError of reading a property of null or undefined\<close>
  "get v k = (if nullish v then None else Some (field v k))"

definition opt_get :: "js \<Rightarrow> string \<Rightarrow> js" where
  \<comment> \<open>\<open>v?.k\<close>\<close>
  "opt_get v k = (if nullish v then JUndefined else field v k)"

definition js_or :: "js \<Rightarrow> js \<Rightarrow> js" where
  \<comment> \<open>\<open>a || b\<close>\<close>
  "js_or a b = (if truthy a then a else b)"

definition of_str :: "string option \<Rightarrow> js" where
  \<comment> \<open>a value of type \<open>string | null\<close>\<close>
  "of_str s = (case s of None \<Rightarrow> JNull | Some t \<Rightarrow> JStr t)"

definition str_truthy :: "string option \<Rightarrow> bool" where
  \<comment> \<open>truthiness of a \<open>string | null | undefined\<close>\<close>
  "str_truthy s = (case s of None \<Rightarrow> False | Some t \<Rightarrow> t \<noteq> [])"

fun join_comma :: "string list \<Rightarrow> string" where
  "join_comma [] = []"
| "join_comma [s] = s"
| "join_comma (s # t # ss) = s @ '','' @ join_comma (t # ss)"

fun to_string :: "js \<Rightarrow> string option" where
  \<comment> \<open>the conversion of a template literal, \<open>`${v}`\<close>; \<open>None\<close> is the TypeError for an
      object that has no primitive value\<close>
  "to_string JUndefined = Some ''undefined''"
| "to_string JNull = Some ''null''"
| "to_string (JBool b) = Some (if b then ''true'' else ''false'')"
| "to_string (JNum n) = Some n"
| "to_string (JStr s) = Some s"
| "to_string (JArr xs) =
     map_option join_comma (those (map (\<lambda>x. if nullish x then Some [] else to_string x) xs))"
| "to_string (JObj kvs) =
     (if ''toString'' \<in> fst ` set kvs then None else Some ''[object Object]'')"

definition endsWith :: "string \<Rightarrow> string \<Rightarrow> bool" where
  "endsWith s t = (length t \<le> length s \<and> drop (length s - length t) s = t)"

subsection \<open>Configuration read once at load (lines 36-53)\<close>

record env =
  VITE_SERVER_URL :: "string option"
  VITE_SERVER_AUTH :: "string option"
  VITE_MANUAL_ROOM_ENTRY :: "string option"
  VITE_SHOW_CONFIG :: "string option"
  roomQs :: "string option"  \<comment> \<open>the query parameter \<open>room_url\<close>, null when absent\<close>

definition serverUrl :: "env \<Rightarrow> string option" where
  "serverUrl e =
     (case VITE_SERVER_URL e of
        None \<Rightarrow> None
      | Some u \<Rightarrow> if u \<noteq> [] \<and> \<not> endsWith u ''/'' then Some (u @ ''/'') else Some u)"

definition serverAuth :: "env \<Rightarrow> string option" where
  "serverAuth e = VITE_SERVER_AUTH e"

definition autoRoomCreation :: "env \<Rightarrow> bool" where
  "autoRoomCreation e = (if str_truthy (VITE_MANUAL_ROOM_ENTRY e) then False else True)"

definition showConfigOptions :: "env \<Rightarrow> bool" where
  "showConfigOptions e = str_truthy (VITE_SHOW_CONFIG e)"

definition template :: "string option \<Rightarrow> string" where
  \<comment> \<open>\<open>`${s}`\<close> for a string that may be undefined\<close>
  "template s = (case s of None \<Rightarrow> ''undefined'' | Some t \<Rightarrow> t)"

subsection \<open>Component state and effects\<close>

datatype State =
    Idle | Configuring | RequestingAgent | Connecting | Connected | Started | Finished | Error

record app =
  state :: State
  error :: "string option"
  startAudioOff :: bool
  roomUrl :: "string option"
  roomError :: bool
  capacityError :: string

record join_args =
  arg_url :: js
  arg_token :: js
  arg_videoSource :: bool
  arg_startAudioOff :: bool

datatype effect =
    SetState State
  | SetError string
  | SetStartAudioOff bool
  | SetRoomUrl "string option"
  | SetRoomError bool
  | SetCapacityError string
  | FetchStartAgent string "string option"  \<comment> \<open>endpoint and auth of \<open>fetch_start_agent\<close>\<close>
  | PostStartBot string string js js  \<comment> \<open>endpoint, Authorization header, \<open>room_url\<close>, \<open>token\<close>\<close>
  | Join join_args
  | Leave
  | Destroy

datatype completion = Returned | Threw  \<comment> \<open>\<open>Threw\<close>: the handler's promise rejects\<close>

datatype fetched = Returns js | Throws  \<comment> \<open>how \<open>await fetch_start_agent(...)\<close> settles\<close>

datatype settled = Resolves | Rejects  \<comment> \<open>how an awaited call on \<open>daily\<close> settles\<close>

fun apply_effect :: "effect \<Rightarrow> app \<Rightarrow> app" where
  "apply_effect (SetState s) a = a\<lparr>state := s\<rparr>"
| "apply_effect (SetError m) a = a\<lparr>error := Some m\<rparr>"
| "apply_effect (SetStartAudioOff b) a = a\<lparr>startAudioOff := b\<rparr>"
| "apply_effect (SetRoomUrl u) a = a\<lparr>roomUrl := u\<rparr>"
| "apply_effect (SetRoomError b) a = a\<lparr>roomError := b\<rparr>"
| "apply_effect (SetCapacityError m) a = a\<lparr>capacityError := m\<rparr>"
| "apply_effect e a = a"

definition apply_effects :: "effect list \<Rightarrow> app \<Rightarrow> app" where
  "apply_effects es a = foldl (\<lambda>b e. apply_effect e b) a es"

definition start_state :: "env \<Rightarrow> State" where
  \<comment> \<open>\<open>showConfigOptions ? "idle" : "configuring"\<close>\<close>
  "start_state e = (if showConfigOptions e then Idle else Configuring)"

definition initial :: "env \<Rightarrow> app" where
  \<comment> \<open>the \<open>useState\<close> initialisers, lines 58-67\<close>
  "initial e =
     \<lparr>state = start_state e,
      error = None,
      startAudioOff = False,
      roomUrl = (if str_truthy (roomQs e) then roomQs e else None),
      roomError = ((str_truthy (roomQs e) \<and> checkRoomUrl (roomQs e)) \<or> False),
      capacityError = []\<rparr>"

subsection \<open>\<open>handleRoomUrl\<close> and the Next button (lines 69-81, 255-257)\<close>

definition handleRoomUrl :: "env \<Rightarrow> app \<Rightarrow> effect list" where
  "handleRoomUrl e a =
     (if (autoRoomCreation e \<and> str_truthy (serverUrl e)) \<or> checkRoomUrl (roomUrl a)
      then [SetRoomError False, SetState Configuring]
      else [SetRoomError True])"


subsection \<open>\<open>start\<close> (lines 83-156)\<close>

definition capacity_message :: string where
  "capacity_message = ''We are currently at capacity for this demo. Please try again later.''"

definition at_capacity :: "effect list" where
  \<comment> \<open>lines 119-123 and 127-131\<close>
  "at_capacity = [SetCapacityError capacity_message, SetState Configuring]"

definition join_room :: "app \<Rightarrow> js \<Rightarrow> settled \<Rightarrow> effect list \<times> completion" where
  \<comment> \<open>lines 136-155, with \<open>data\<close> as it stands when they are reached\<close>
  "join_room a data joined =
     (let args = \<lparr>arg_url = js_or (opt_get (opt_get data ''result'') ''url'') (of_str (roomUrl a)),
                  arg_token = js_or (opt_get (opt_get data ''result'') ''token'') (JStr []),
                  arg_videoSource = False,
                  arg_startAudioOff = startAudioOff a\<rparr>
      in case joined of
           Resolves \<Rightarrow> ([SetState Connecting, Join args, SetState Connected], Returned)
         | Rejects \<Rightarrow>
             (case to_string (js_or (opt_get data ''room_url'') (of_str (roomUrl a))) of
                None \<Rightarrow> ([SetState Connecting, Join args], Threw)
              | Some u \<Rightarrow>
                  ([SetState Connecting, Join args,
                    SetError (''Unable to join room: '' @ [CHR 0x27] @ u @ [CHR 0x27]),
                    SetState Error], Returned)))"

definition prepend :: "effect list \<Rightarrow> effect list \<times> completion \<Rightarrow> effect list \<times> completion" where
  "prepend es r = (es @ fst r, snd r)"

definition start :: "env \<Rightarrow> bool \<Rightarrow> app \<Rightarrow> fetched \<Rightarrow> settled \<Rightarrow> effect list \<times> completion" where
  \<comment> \<open>\<open>daily\<close> tells whether \<open>useDaily()\<close> gave a call object; \<open>fetched\<close> and \<open>joined\<close> are
      how the two awaited calls settle\<close>
  "start e daily a fetched joined =
     (if \<not> daily \<or> (\<not> str_truthy (roomUrl a) \<and> \<not> autoRoomCreation e) then ([], Returned)
      else if str_truthy (VITE_SERVER_URL e) then
        prepend [SetState RequestingAgent,
                 FetchStartAgent (template (serverUrl e) @ ''create_room'') (serverAuth e)]
          (case fetched of
             Throws \<Rightarrow> (at_capacity, Returned)
           | Returns data \<Rightarrow>
               if truthy data \<and> \<not> truthy (field data ''error'') then
                 (case get (field data ''result'') ''url'' of
                    None \<Rightarrow> (at_capacity, Returned)
                  | Some u \<Rightarrow>
                      prepend [PostStartBot (template (serverUrl e) @ ''start_bot'')
                                 (''Bearer '' @ template (serverAuth e))
                                 u (field (field data ''result'') ''token'')]
                        (join_room a data joined))
               else (at_capacity, Returned))
      else join_room a JUndefined joined)"

subsection \<open>\<open>leave\<close> (lines 158-163)\<close>

definition leave :: "env \<Rightarrow> bool \<Rightarrow> settled \<Rightarrow> settled \<Rightarrow> effect list \<times> completion" where
  "leave e daily left destroyed =
     (if \<not> daily then ([SetState (start_state e)], Returned)
      else case left of
             Rejects \<Rightarrow> ([Leave], Threw)
           | Resolves \<Rightarrow>
               (case destroyed of
                  Rejects \<Rightarrow> ([Leave, Destroy], Threw)
                | Resolves \<Rightarrow> ([Leave, Destroy, SetState (start_state e)], Returned)))"

subsection \<open>Reachable component states\<close>

text \<open>
  An effect is emitted when some handler, run on the values of some render with its
  awaited calls settling in some way, performs it; the two inline handlers of the render
  (\<open>handleCheckRoomUrl\<close>, \<open>handleStartAudioOff\<close>) emit one effect each. A handler that is
  suspended at an \<open>await\<close> keeps the values of the render that started it, so its later
  effects land on whatever state the component has by then: a reachable state is the
  initial one, or a reachable one after an effect emitted from a reachable one.
\<close>

inductive emits :: "env \<Rightarrow> app \<Rightarrow> effect \<Rightarrow> bool" for e :: env and a :: app where
  emits_handleRoomUrl: "x \<in> set (handleRoomUrl e a) \<Longrightarrow> emits e a x"
| emits_start: "x \<in> set (fst (start e daily a fetched joined)) \<Longrightarrow> emits e a x"
| emits_leave: "x \<in> set (fst (leave e daily left destroyed)) \<Longrightarrow> emits e a x"
| emits_handleCheckRoomUrl: "emits e a (SetRoomUrl u)"
| emits_handleStartAudioOff: "emits e a (SetStartAudioOff (\<not> startAudioOff a))"

inductive reachable :: "env \<Rightarrow> app \<Rightarrow> bool" for e :: env where
  reachable_initial: "reachable e (initial e)"
| reachable_effect: "reachable e a \<Longrightarrow> reachable e b \<Longrightarrow> emits e a x \<Longrightarrow> reachable e (apply_effect x b)"

subsection \<open>Outcomes of provisioning\<close>

definition carries :: "js \<Rightarrow> string \<Rightarrow> bool" where
  \<comment> \<open>the value is an object with an own property of that name, whatever its value\<close>
  "carries v k = (case v of JObj kvs \<Rightarrow> map_of kvs k \<noteq> None | _ \<Rightarrow> False)"

definition provisioning_failed :: "fetched \<Rightarrow> bool" where
  \<comment> \<open>the outcomes that lines 98-132 do not run as a success: \<open>fetch_start_agent\<close> throws,
      or the test \<open>data && !data.error\<close> of line 102 fails (a falsy response, or an \<open>error\<close>
      that is truthy), or \<open>data.result.url\<close> throws at line 103 (no \<open>result\<close>). An \<open>error\<close>
      field that is present with a falsy value does not fail the test of line 102.\<close>
  "provisioning_failed f =
     (case f of
        Throws \<Rightarrow> True
      | Returns data \<Rightarrow> \<not> truthy data \<or> truthy (field data ''error'') \<or> nullish (field data ''result''))"

definition provisioned_token :: "env \<Rightarrow> fetched \<Rightarrow> js" where
  \<comment> \<open>the \<open>result.token\<close> of the provisioning response, undefined when there is none\<close>
  "provisioned_token e f =
     (if str_truthy (VITE_SERVER_URL e)
      then (case f of Throws \<Rightarrow> JUndefined | Returns data \<Rightarrow> field (field data ''result'') ''token'')
      else JUndefined)"

subsection \<open>Substrings\<close>

definition str_includes :: "string \<Rightarrow> string \<Rightarrow> bool" where
  \<comment> \<open>\<open>s.includes(t)\<close>\<close>
  "str_includes s t = list_ex (\<lambda>i. take (length t) (drop i s) = t) [0..<Suc (length s)]"

subsection \<open>Configurations used as concrete inputs\<close>

definition env_bare :: env where
  \<comment> \<open>nothing configured, no query string\<close>
  "env_bare =
     \<lparr>VITE_SERVER_URL = None, VITE_SERVER_AUTH = None, VITE_MANUAL_ROOM_ENTRY = None,
      VITE_SHOW_CONFIG = None, roomQs = None\<rparr>"

definition env_landing :: env where
  \<comment> \<open>only the landing step switched on\<close>
  "env_landing = env_bare\<lparr>VITE_SHOW_CONFIG := Some ''1''\<rparr>"

definition env_server :: env where
  \<comment> \<open>a provisioning backend configured\<close>
  "env_server =
     env_bare\<lparr>VITE_SERVER_URL := Some ''https://api.example.com'',
              VITE_SERVER_AUTH := Some ''secret''\<rparr>"

definition env_server_landing :: env where
  \<comment> \<open>a provisioning backend configured and the landing step switched on\<close>
  "env_server_landing = env_server\<lparr>VITE_SHOW_CONFIG := Some ''1''\<rparr>"

definition env_manual :: env where
  \<comment> \<open>manual room entry, no provisioning backend, the landing step switched on\<close>
  "env_manual = env_landing\<lparr>VITE_MANUAL_ROOM_ENTRY := Some ''1''\<rparr>"

definition response_error_null :: js where
  \<comment> \<open>\<open>{ error: null, result: { url, token } }\<close>\<close>
  "response_error_null =
     JObj [(''error'', JNull),
           (''result'', JObj [(''url'', JStr ''https://team.daily.co/room1''),
                             (''token'', JStr ''tok'')])]"

definition response_ok :: js where
  \<comment> \<open>\<open>{ result: { url, token } }\<close>\<close>
  "response_ok =
     JObj [(''result'', JObj [(''url'', JStr ''https://team.daily.co/room1''),
                             (''token'', JStr ''tok'')])]"

section \<open>The matcher decides the language of its pattern\<close>

lemma nullable_iff: "nullable r \<longleftrightarrow> [] \<in> lang r"
  by (induction r) (auto simp: conc_def intro: star.star_nil)

lemma conc_Cons_iff:
  "a # w \<in> conc A B \<longleftrightarrow>
     ([] \<in> A \<and> a # w \<in> B) \<or> (\<exists>u v. w = u @ v \<and> a # u \<in> A \<and> v \<in> B)"
  unfolding conc_def by (auto simp: append_eq_Cons_conv Cons_eq_append_conv) 

lemma star_Cons_D:
  assumes "x \<in> star A" "x = a # w"
  shows "\<exists>u v. w = u @ v \<and> a # u \<in> A \<and> v \<in> star A"
  using assms
proof (induction arbitrary: rule: star.induct)
  case star_nil
  then show ?case by simp
next
  case (star_app u v)
  show ?case
  proof (cases u)
    case Nil
    with star_app show ?thesis by simp
  next
    case (Cons b u')
    with star_app.prems have "b = a" "w = u' @ v" by simp_all
    with star_app.hyps Cons show ?thesis by blast
  qed
qed

lemma star_Cons_iff:
  "a # w \<in> star A \<longleftrightarrow> (\<exists>u v. w = u @ v \<and> a # u \<in> A \<and> v \<in> star A)"
proof
  assume "a # w \<in> star A"
  then show "\<exists>u v. w = u @ v \<and> a # u \<in> A \<and> v \<in> star A"
    by (rule star_Cons_D) simp
next
  assume "\<exists>u v. w = u @ v \<and> a # u \<in> A \<and> v \<in> star A"
  then obtain u v where "w = u @ v" "a # u \<in> A" "v \<in> star A" by blast
  then show "a # w \<in> star A"
    using star.star_app [of "a # u" A v] by simp
qed

lemma lang_deriv: "w \<in> lang (deriv a r) \<longleftrightarrow> a # w \<in> lang r"
proof (induction r arbitrary: w)
  case (RSeq r s)
  then show ?case
    by (auto simp: conc_Cons_iff nullable_iff) (auto simp: conc_def)
next
  case (RStar r)
  then show ?case
    by (auto simp: star_Cons_iff conc_def)
qed auto

lemma lang_derivs: "v \<in> lang (derivs r w) \<longleftrightarrow> w @ v \<in> lang r"
  by (induction w arbitrary: r) (simp_all add: lang_deriv)

lemma regex_test_iff: "regex_test r s \<longleftrightarrow> s \<in> lang r"
  by (simp add: regex_test_def nullable_iff lang_derivs)

lemma lang_RWord: "lang (RWord w) = {w}"
  by (induction w) (auto simp: conc_def)

lemma star_not_char: "star {[d] | d. d \<noteq> c} = {w. c \<notin> set w}"
proof (intro set_eqI iffI)
  fix w assume "w \<in> star {[d] | d. d \<noteq> c}"
  then show "w \<in> {w. c \<notin> set w}"
    by (induction rule: star.induct) auto
next
  fix w assume "w \<in> {w. c \<notin> set w}"
  then show "w \<in> star {[d] | d. d \<noteq> c}"
  proof (induction w)
    case Nil
    show ?case by (rule star.star_nil)
  next
    case (Cons d w)
    then have "[d] \<in> {[d] | d. d \<noteq> c}" "w \<in> star {[d] | d. d \<noteq> c}" by auto
    then have "[d] @ w \<in> star {[d] | d. d \<noteq> c}" by (rule star.star_app)
    then show ?case by simp
  qed
qed

lemma lang_RPlus_RNot: "lang (RPlus (RNot c)) = {w. w \<noteq> [] \<and> c \<notin> set w}"
proof -
  have "conc {[d] | d. d \<noteq> c} {w. c \<notin> set w} = {w. w \<noteq> [] \<and> c \<notin> set w}"
  proof (intro set_eqI iffI)
    fix w assume "w \<in> conc {[d] | d. d \<noteq> c} {w. c \<notin> set w}"
    then show "w \<in> {w. w \<noteq> [] \<and> c \<notin> set w}" by (auto simp: conc_def)
  next
    fix w assume "w \<in> {w. w \<noteq> [] \<and> c \<notin> set w}"
    then obtain d w' where "w = [d] @ w'" "d \<noteq> c" "c \<notin> set w'" by (cases w) auto
    then show "w \<in> conc {[d] | d. d \<noteq> c} {w. c \<notin> set w}"
      unfolding conc_def by blast
  qed
  then show ?thesis by (simp add: RPlus_def star_not_char)
qed

lemma lang_ROpt: "lang (ROpt r) = lang r \<union> {[]}"
  by (simp add: ROpt_def)

lemma conc_iff: "w \<in> conc A B \<longleftrightarrow> (\<exists>u v. w = u @ v \<and> u \<in> A \<and> v \<in> B)"
  by (auto simp: conc_def)

lemma lang_room_url_re:
  "lang room_url_re =
     conc {''http''} (conc ({[CHR ''s'']} \<union> {[]}) (conc {''://''}
       (conc {w. dotless w} (conc {''.daily.co/''} {w. path_segment w}))))"
  by (simp only: room_url_re_def lang.simps lang_RWord lang_RPlus_RNot lang_ROpt
      dotless_def path_segment_def)

lemma regex_test_room_url: "regex_test room_url_re s \<longleftrightarrow> pattern_shape s"
proof -
  have "s \<in> lang room_url_re \<longleftrightarrow> pattern_shape s"
  proof
    assume "s \<in> lang room_url_re"
    then obtain t sub seg where t: "t = [CHR ''s''] \<or> t = []"
      and sub: "dotless sub" and seg: "path_segment seg"
      and s: "s = ''http'' @ t @ ''://'' @ sub @ ''.daily.co/'' @ seg"
      unfolding lang_room_url_re conc_iff by blast
    from t have "''http'' @ t = ''http'' \<or> ''http'' @ t = ''https''" by auto
    moreover from s have "s = (''http'' @ t) @ ''://'' @ sub @ ''.daily.co/'' @ seg" by simp
    ultimately show "pattern_shape s"
      unfolding pattern_shape_def using sub seg by blast
  next
    assume "pattern_shape s"
    then obtain p sub seg where p: "p = ''http'' \<or> p = ''https''"
      and sub: "dotless sub" and seg: "path_segment seg"
      and s: "s = p @ ''://'' @ sub @ ''.daily.co/'' @ seg"
      unfolding pattern_shape_def by blast
    from p obtain t where t: "t = [CHR ''s''] \<or> t = []" and pt: "p = ''http'' @ t"
      by auto
    have "''.daily.co/'' @ seg \<in> conc {''.daily.co/''} {w. path_segment w}"
      unfolding conc_iff using seg by blast
    then have "sub @ ''.daily.co/'' @ seg
        \<in> conc {w. dotless w} (conc {''.daily.co/''} {w. path_segment w})"
      unfolding conc_iff [of _ "{w. dotless w}"] using sub by blast
    then have "''://'' @ sub @ ''.daily.co/'' @ seg
        \<in> conc {''://''} (conc {w. dotless w} (conc {''.daily.co/''} {w. path_segment w}))"
      unfolding conc_iff [of _ "{''://''}"] by blast
    then have "t @ ''://'' @ sub @ ''.daily.co/'' @ seg
        \<in> conc ({[CHR ''s'']} \<union> {[]}) (conc {''://''}
             (conc {w. dotless w} (conc {''.daily.co/''} {w. path_segment w})))"
      unfolding conc_iff [of _ "{[CHR ''s'']} \<union> {[]}"] using t by blast
    then have "''http'' @ t @ ''://'' @ sub @ ''.daily.co/'' @ seg \<in> lang room_url_re"
      unfolding lang_room_url_re conc_iff [of _ "{''http''}"] by blast
    then show "s \<in> lang room_url_re" using s pt by simp
  qed
  then show ?thesis by (simp add: regex_test_iff)
qed

lemma decompose_unique:
  assumes "xs @ c # r = ys @ c # r'" "c \<notin> set xs" "c \<notin> set ys"
  shows "xs = ys"
  using assms
proof (induction xs arbitrary: ys)
  case Nil
  then show ?case by (cases ys) auto
next
  case (Cons x xs)
  then show ?case by (cases ys) auto
qed

lemma spec_shape_accepted: "single_level_room_url s \<Longrightarrow> pattern_shape s"
  unfolding single_level_room_url_def pattern_shape_def host_label_def dotless_def by blast

section \<open>Evaluation of the handlers\<close>

lemmas cfg_eval = env_bare_def env_landing_def env_server_def env_server_landing_def
  env_manual_def response_ok_def response_error_null_def initial_def
  start_state_def showConfigOptions_def autoRoomCreation_def serverUrl_def serverAuth_def
  str_truthy_def endsWith_def template_def checkRoomUrl_def

lemmas start_eval = start_def join_room_def prepend_def at_capacity_def get_def opt_get_def
  js_or_def of_str_def

lemma truthy_not_nullish: "truthy v \<Longrightarrow> \<not> nullish v"
  by (cases v) simp_all

lemma field_nullish: "nullish v \<Longrightarrow> field v k = JUndefined"
  by (cases v) simp_all

lemma handleRoomUrl_states:
  "SetState s \<in> set (handleRoomUrl e a) \<Longrightarrow> s = Configuring"
  by (auto simp: handleRoomUrl_def split: if_splits)

lemma join_room_states:
  "SetState s \<in> set (fst (join_room a data joined)) \<Longrightarrow> s \<in> {Connecting, Connected, Error}"
  by (auto simp: join_room_def Let_def split: settled.splits option.splits)

lemma start_states:
  "SetState s \<in> set (fst (start e daily a fetched joined)) \<Longrightarrow>
     s \<in> {RequestingAgent, Configuring, Connecting, Connected, Error}"
  by (auto simp: start_def prepend_def at_capacity_def
      split: if_splits fetched.splits option.splits dest: join_room_states)

lemma leave_states:
  "SetState s \<in> set (fst (leave e daily left destroyed)) \<Longrightarrow> s \<in> {Idle, Configuring}"
  by (auto simp: leave_def start_state_def split: if_splits settled.splits)

lemma emits_states:
  assumes "emits e a (SetState s)"
  shows "s \<in> {Idle, Configuring, RequestingAgent, Connecting, Connected, Error}"
  using assms
proof (cases rule: emits.cases)
  case emits_handleRoomUrl
  then show ?thesis using handleRoomUrl_states by blast
next
  case (emits_start daily fetched joined)
  then show ?thesis using start_states by blast
next
  case (emits_leave daily left destroyed)
  then show ?thesis using leave_states by blast
qed

lemma reachable_states:
  "reachable e a \<Longrightarrow> state a \<in> {Idle, Configuring, RequestingAgent, Connecting, Connected, Error}"
proof (induction rule: reachable.induct)
  case reachable_initial
  show ?case by (simp add: initial_def start_state_def)
next
  case (reachable_effect a b x)
  show ?case
  proof (cases x)
    case (SetState s)
    with reachable_effect.hyps(3) emits_states show ?thesis by auto
  qed (use reachable_effect.IH(2) in simp_all)
qed

lemma join_room_token:
  "Join x \<in> set (fst (join_room a data joined)) \<Longrightarrow>
     arg_token x = js_or (opt_get (opt_get data ''result'') ''token'') (JStr [])"
  by (auto simp: join_room_def Let_def split: settled.splits option.splits)

lemma start_token:
  assumes "Join x \<in> set (fst (start e daily a f j))"
  shows "arg_token x = js_or (provisioned_token e f) (JStr [])"
proof (cases "str_truthy (VITE_SERVER_URL e)")
  case False
  with assms have "Join x \<in> set (fst (join_room a JUndefined j))"
    by (auto simp: start_def split: if_splits)
  then show ?thesis
    using False by (simp add: join_room_token provisioned_token_def opt_get_def)
next
  case True
  with assms obtain data where f: "f = Returns data" and tr: "truthy data"
    and res: "\<not> nullish (field data ''result'')"
    and jn: "Join x \<in> set (fst (join_room a data j))"
    by (auto simp: start_def prepend_def at_capacity_def get_def
        split: if_splits fetched.splits)
  from tr have "\<not> nullish data" by (rule truthy_not_nullish)
  with res have "opt_get (opt_get data ''result'') ''token'' = field (field data ''result'') ''token''"
    by (simp add: opt_get_def)
  with jn f True show ?thesis
    by (simp add: join_room_token provisioned_token_def)
qed

lemma join_room_connects: "SetState Connecting \<in> set (fst (join_room a data joined))"
  by (simp add: join_room_def Let_def split: settled.splits option.splits)

lemma start_not_failed_connects:
  assumes "str_truthy (roomUrl a) \<or> autoRoomCreation e"
    and "str_truthy (VITE_SERVER_URL e)"
    and "\<not> provisioning_failed f"
  shows "SetState Connecting \<in> set (fst (start e True a f j))"
proof -
  from assms(3) obtain data where f: "f = Returns data" and "truthy data"
    and "\<not> truthy (field data ''error'')" and "\<not> nullish (field data ''result'')"
    by (cases f) (auto simp: provisioning_failed_def)
  with assms(1,2) show ?thesis
    by (auto simp: start_def prepend_def get_def join_room_connects)
qed

section \<open>The room-URL validator\<close>

lemmas re_eval = checkRoomUrl_def regex_test_def room_url_re_def ROpt_def RPlus_def

text \<open>
  Every URL of the shape the specification describes is accepted, and the validator
  agrees with the specification's own examples.
\<close>

lemma checkRoomUrl_iff_pattern_shape: "checkRoomUrl (Some s) = pattern_shape s"
proof -
  have "pattern_shape s \<Longrightarrow> s \<noteq> []"
    by (auto simp: pattern_shape_def)
  then show ?thesis
    by (auto simp: checkRoomUrl_def regex_test_room_url)
qed

lemma single_level_room_url_accepted: "single_level_room_url s \<Longrightarrow> checkRoomUrl (Some s)"
  by (simp add: checkRoomUrl_iff_pattern_shape spec_shape_accepted)

lemma checkRoomUrl_examples:
  "checkRoomUrl (Some ''https://foo.daily.co/room1'')"
  "\<not> checkRoomUrl (Some ''https://foo.daily.co/room1/'')"
  "\<not> checkRoomUrl (Some ''https://daily.co/room1'')"
  "\<not> checkRoomUrl (Some ''https://a.b.daily.co/room1'')"
  "\<not> checkRoomUrl None"
  by (simp_all add: re_eval)

text \<open>
  C4 asks that \<open>checkRoomUrl\<close> returns true only for a room URL with exactly one subdomain
  label before the provider domain and exactly one path segment. The validator accepts
  \<open>https://evil/x.daily.co/r\<close>, whose text before the provider domain is \<open>evil/x\<close>. That
  is no subdomain label: the host of this URL is \<open>evil\<close> and its path has the two segments
  \<open>x.daily.co\<close> and \<open>r\<close>.
\<close>

theorem checkRoomUrl_accepts_slash_before_domain:
  "checkRoomUrl (Some ''https://evil/x.daily.co/r'') \<and>
   \<not> single_level_room_url ''https://evil/x.daily.co/r''"
proof
  show "checkRoomUrl (Some ''https://evil/x.daily.co/r'')"
    by (simp add: re_eval)
next
  show "\<not> single_level_room_url ''https://evil/x.daily.co/r''"
  proof
    assume "single_level_room_url ''https://evil/x.daily.co/r''"
    then obtain p sub seg where p: "p = ''http'' \<or> p = ''https''"
      and sub: "host_label sub"
      and s: "''https://evil/x.daily.co/r'' = p @ ''://'' @ sub @ ''.daily.co/'' @ seg"
      unfolding single_level_room_url_def by blast
    from p s have "''evil/x'' @ CHR ''.'' # ''daily.co/r'' = sub @ CHR ''.'' # (''daily.co/'' @ seg)"
      by auto
    moreover have "CHR ''.'' \<notin> set ''evil/x''" by simp
    moreover from sub have "CHR ''.'' \<notin> set sub" by (simp add: host_label_def)
    ultimately have "''evil/x'' = sub" by (rule decompose_unique)
    with sub show False by (auto simp: host_label_def)
  qed
qed

text \<open>
  The run of C4 on the manual path: with manual room entry and no provisioning backend,
  the user enters that candidate on the landing step, \<open>handleRoomUrl\<close> lets it through to
  \<open>configuring\<close>, and \<open>start\<close> hands it to \<open>daily.join\<close> unchanged.
\<close>

theorem checkRoomUrl_accepts_slash_before_domain_witness:
  "state (initial env_manual) = Idle \<and> \<not> autoRoomCreation env_manual \<and>
   handleRoomUrl env_manual
     (apply_effect (SetRoomUrl (Some ''https://evil/x.daily.co/r'')) (initial env_manual)) =
     [SetRoomError False, SetState Configuring] \<and>
   start env_manual True
     (apply_effects [SetRoomUrl (Some ''https://evil/x.daily.co/r''),
                     SetRoomError False, SetState Configuring] (initial env_manual))
     (Returns JUndefined) Resolves =
     ([SetState Connecting,
       Join \<lparr>arg_url = JStr ''https://evil/x.daily.co/r'', arg_token = JStr [],
             arg_videoSource = False, arg_startAudioOff = False\<rparr>,
       SetState Connected], Returned)"
proof -
  from checkRoomUrl_accepts_slash_before_domain
  have acc: "checkRoomUrl (Some ''https://evil/x.daily.co/r'')" by simp
  have idle: "state (initial env_manual) = Idle" "\<not> autoRoomCreation env_manual"
    by (simp_all add: env_manual_def env_landing_def env_bare_def initial_def start_state_def
        showConfigOptions_def autoRoomCreation_def str_truthy_def)
  have url: "roomUrl (apply_effect (SetRoomUrl (Some ''https://evil/x.daily.co/r''))
      (initial env_manual)) = Some ''https://evil/x.daily.co/r''"
    by simp
  have handled: "handleRoomUrl env_manual
     (apply_effect (SetRoomUrl (Some ''https://evil/x.daily.co/r'')) (initial env_manual)) =
     [SetRoomError False, SetState Configuring]"
    unfolding handleRoomUrl_def url using acc by simp
  have started: "start env_manual True
     (apply_effects [SetRoomUrl (Some ''https://evil/x.daily.co/r''),
                     SetRoomError False, SetState Configuring] (initial env_manual))
     (Returns JUndefined) Resolves =
     ([SetState Connecting,
       Join \<lparr>arg_url = JStr ''https://evil/x.daily.co/r'', arg_token = JStr [],
             arg_videoSource = False, arg_startAudioOff = False\<rparr>,
       SetState Connected], Returned)"
    by (simp add: start_eval apply_effects_def env_manual_def env_landing_def env_bare_def
        initial_def str_truthy_def)
  from idle handled started show ?thesis by simp
qed

text \<open>
  C9: at startup \<open>roomError\<close> is true if and only if a query-string room URL is present
  and passes \<open>checkRoomUrl\<close>.
\<close>

theorem roomError_initial: "roomError (initial e) = (\<exists>u. roomQs e = Some u \<and> checkRoomUrl (Some u))"
  by (cases "roomQs e") (auto simp: initial_def checkRoomUrl_def str_truthy_def)

text \<open>
  C9 at three configurations: a valid query-string URL starts with the flag set, an
  invalid one and an absent one start with it cleared.
\<close>

theorem roomError_initial_witness:
  "roomError (initial (env_bare\<lparr>roomQs := Some ''https://foo.daily.co/room1''\<rparr>)) \<and>
   checkRoomUrl (Some ''https://foo.daily.co/room1'') \<and>
   \<not> roomError (initial (env_bare\<lparr>roomQs := Some ''room1''\<rparr>)) \<and>
   \<not> roomError (initial env_bare)"
proof -
  have yes: "checkRoomUrl (Some ''https://foo.daily.co/room1'')"
    by (simp add: re_eval)
  have no: "\<not> checkRoomUrl (Some ''room1'')"
    by (simp add: re_eval)
  from roomError_initial [of "env_bare\<lparr>roomQs := Some ''https://foo.daily.co/room1''\<rparr>"]
    roomError_initial [of "env_bare\<lparr>roomQs := Some ''room1''\<rparr>"] roomError_initial [of env_bare] yes no
  show ?thesis by (simp add: env_bare_def)
qed

section \<open>Entering configuration\<close>




section \<open>Starting a session\<close>

text \<open>
  C1 asks that \<open>daily.join\<close> is never called with a null url. With nothing configured, the
  component starts in \<open>configuring\<close> with \<open>roomUrl\<close> null; \<open>start\<close> passes its guard because
  \<open>autoRoomCreation\<close> is true, skips provisioning, and calls \<open>daily.join\<close> with url null.
\<close>

theorem start_joins_with_null_url:
  "state (initial env_bare) = Configuring \<and> roomUrl (initial env_bare) = None \<and>
   start env_bare True (initial env_bare) (Returns JUndefined) Resolves =
     ([SetState Connecting,
       Join \<lparr>arg_url = JNull, arg_token = JStr [], arg_videoSource = False,
             arg_startAudioOff = False\<rparr>,
       SetState Connected], Returned)"
  by (simp add: cfg_eval start_eval)

text \<open>
  The configuration of C1's run: auto room creation is on, no server URL is set, and the
  join call with url null is among the effects of \<open>start\<close>.
\<close>

theorem start_joins_with_null_url_witness:
  "autoRoomCreation env_bare \<and> VITE_SERVER_URL env_bare = None \<and>
   Join \<lparr>arg_url = JNull, arg_token = JStr [], arg_videoSource = False,
         arg_startAudioOff = False\<rparr>
     \<in> set (fst (start env_bare True (initial env_bare) (Returns JUndefined) Resolves))"
proof -
  have cfg: "autoRoomCreation env_bare" "VITE_SERVER_URL env_bare = None"
    by (simp_all add: cfg_eval)
  from start_joins_with_null_url
  have "Join \<lparr>arg_url = JNull, arg_token = JStr [], arg_videoSource = False,
         arg_startAudioOff = False\<rparr>
     \<in> set (fst (start env_bare True (initial env_bare) (Returns JUndefined) Resolves))"
    by simp
  with cfg show ?thesis by simp
qed

text \<open>
  C2 asks that the message set when the join rejects contains the URL that was passed to
  the join. After provisioning returned \<open>result.url\<close>, the join is called with that URL, but
  the message is built from \<open>data?.room_url || roomUrl\<close> and names \<open>null\<close>.
\<close>

theorem join_error_message_omits_result_url:
  "start env_server True (initial env_server) (Returns response_ok) Rejects =
     ([SetState RequestingAgent,
       FetchStartAgent ''https://api.example.com/create_room'' (Some ''secret''),
       PostStartBot ''https://api.example.com/start_bot'' ''Bearer secret''
         (JStr ''https://team.daily.co/room1'') (JStr ''tok''),
       SetState Connecting,
       Join \<lparr>arg_url = JStr ''https://team.daily.co/room1'', arg_token = JStr ''tok'',
             arg_videoSource = False, arg_startAudioOff = False\<rparr>,
       SetError (''Unable to join room: '' @ [CHR 0x27] @ ''null'' @ [CHR 0x27]),
       SetState Error], Returned) \<and>
   \<not> str_includes (''Unable to join room: '' @ [CHR 0x27] @ ''null'' @ [CHR 0x27])
        ''https://team.daily.co/room1''"
  by (simp add: cfg_eval start_eval str_includes_def)

text \<open>
  The run of C2: the response carries the room URL under \<open>result.url\<close> and has no
  \<open>room_url\<close>, and the message naming \<open>null\<close> is among the effects of \<open>start\<close>.
\<close>

theorem join_error_message_omits_result_url_witness:
  "field (field response_ok ''result'') ''url'' = JStr ''https://team.daily.co/room1'' \<and>
   field response_ok ''room_url'' = JUndefined \<and>
   SetError (''Unable to join room: '' @ [CHR 0x27] @ ''null'' @ [CHR 0x27])
     \<in> set (fst (start env_server True (initial env_server) (Returns response_ok) Rejects))"
proof -
  have resp: "field (field response_ok ''result'') ''url'' = JStr ''https://team.daily.co/room1''"
    "field response_ok ''room_url'' = JUndefined"
    by (simp_all add: response_ok_def)
  from join_error_message_omits_result_url
  have "SetError (''Unable to join room: '' @ [CHR 0x27] @ ''null'' @ [CHR 0x27])
     \<in> set (fst (start env_server True (initial env_server) (Returns response_ok) Rejects))"
    by simp
  with resp show ?thesis by simp
qed

text \<open>
  Every response that carries an \<open>error\<close> field and no \<open>result\<close>, the documented error
  shape, is among the failed outcomes, whatever the value of the field.
\<close>

lemma carries_error_without_result_failed:
  "carries data ''error'' \<Longrightarrow> \<not> carries data ''result'' \<Longrightarrow> provisioning_failed (Returns data)"
  by (cases data) (auto simp: carries_def provisioning_failed_def)




text \<open>
  C6: when the guard of \<open>start\<close> passes, a provisioning backend is configured and the
  response carries no error and a \<open>result\<close> whose \<open>url\<close> and \<open>token\<close> are non-empty strings,
  \<open>start\<close> goes from \<open>requesting_agent\<close> to \<open>connecting\<close> and calls the join with exactly
  that url and that token; no join call of the run has another pair.
\<close>

theorem start_provisioning_success:
  assumes "str_truthy (roomUrl a) \<or> autoRoomCreation e"
    and "str_truthy (VITE_SERVER_URL e)"
    and "\<not> truthy (field data ''error'')"
    and "field (field data ''result'') ''url'' = JStr u" and "u \<noteq> []"
    and "field (field data ''result'') ''token'' = JStr t" and "t \<noteq> []"
  shows "take 5 (fst (start e True a (Returns data) j)) =
           [SetState RequestingAgent,
            FetchStartAgent (template (serverUrl e) @ ''create_room'') (serverAuth e),
            PostStartBot (template (serverUrl e) @ ''start_bot'')
              (''Bearer '' @ template (serverAuth e)) (JStr u) (JStr t),
            SetState Connecting,
            Join \<lparr>arg_url = JStr u, arg_token = JStr t, arg_videoSource = False,
                  arg_startAudioOff = startAudioOff a\<rparr>] \<and>
         (\<forall>x. Join x \<in> set (fst (start e True a (Returns data) j)) \<longrightarrow>
              arg_url x = JStr u \<and> arg_token x = JStr t)"
proof -
  have res: "\<not> nullish (field data ''result'')"
    using assms(4) field_nullish [of "field data ''result''" "''url''"] by auto
  then have dat: "\<not> nullish data"
    using field_nullish [of data "''result''"] by auto
  then have tr: "truthy data"
    using res by (cases data) simp_all
  show ?thesis
    using assms res dat tr
    by (cases j; cases "to_string (js_or (field data ''room_url'') (of_str (roomUrl a)))")
       (auto simp: start_def prepend_def join_room_def get_def opt_get_def js_or_def)
qed

text \<open>
  C6 at the response \<open>{ result: { url, token } }\<close>, with \<open>roomUrl\<close> null.
\<close>

theorem start_provisioning_success_witness:
  "take 5 (fst (start env_server True (initial env_server) (Returns response_ok) Resolves)) =
     [SetState RequestingAgent,
      FetchStartAgent ''https://api.example.com/create_room'' (Some ''secret''),
      PostStartBot ''https://api.example.com/start_bot'' ''Bearer secret''
        (JStr ''https://team.daily.co/room1'') (JStr ''tok''),
      SetState Connecting,
      Join \<lparr>arg_url = JStr ''https://team.daily.co/room1'', arg_token = JStr ''tok'',
            arg_videoSource = False, arg_startAudioOff = False\<rparr>]"
proof -
  have h1: "str_truthy (roomUrl (initial env_server)) \<or> autoRoomCreation env_server"
    by (simp add: cfg_eval)
  have h2: "str_truthy (VITE_SERVER_URL env_server)" by (simp add: cfg_eval)
  have h3: "\<not> truthy (field response_ok ''error'')" by (simp add: response_ok_def)
  have h4: "field (field response_ok ''result'') ''url'' = JStr ''https://team.daily.co/room1''"
    by (simp add: response_ok_def)
  have h5: "''https://team.daily.co/room1'' \<noteq> []" by simp
  have h6: "field (field response_ok ''result'') ''token'' = JStr ''tok''"
    by (simp add: response_ok_def)
  have h7: "''tok'' \<noteq> []" by simp
  from start_provisioning_success [OF h1 h2 h3 h4 h5 h6 h7, of Resolves] show ?thesis by (simp add: cfg_eval)
qed

text \<open>
  C10, as stated, fails: a provisioning response whose \<open>result.token\<close> is the number 42
  makes \<open>start\<close> call the join with the token 42, which is not a string.
\<close>

theorem join_token_not_a_string:
  "start env_server True (initial env_server)
     (Returns (JObj [(''result'', JObj [(''url'', JStr ''https://team.daily.co/room1''),
                                        (''token'', JNum ''42'')])])) Resolves =
     ([SetState RequestingAgent,
       FetchStartAgent ''https://api.example.com/create_room'' (Some ''secret''),
       PostStartBot ''https://api.example.com/start_bot'' ''Bearer secret''
         (JStr ''https://team.daily.co/room1'') (JNum ''42''),
       SetState Connecting,
       Join \<lparr>arg_url = JStr ''https://team.daily.co/room1'', arg_token = JNum ''42'',
             arg_videoSource = False, arg_startAudioOff = False\<rparr>,
       SetState Connected], Returned) \<and>
   \<not> is_str (JNum ''42'')"
  by (simp add: cfg_eval start_eval)

text \<open>
  C10, amended: whenever the join is called, the token argument is never null or
  undefined: it is the provisioning result's token when that is truthy, and the empty
  string in every other case (no provisioning backend, a missing or falsy token). It is a
  string whenever the provisioning result's token is a string, null or undefined.
\<close>

theorem join_token:
  assumes "Join x \<in> set (fst (start e daily a f j))"
  shows "\<not> nullish (arg_token x) \<and>
         arg_token x = (if truthy (provisioned_token e f) then provisioned_token e f else JStr []) \<and>
         (is_str (provisioned_token e f) \<or> nullish (provisioned_token e f) \<longrightarrow>
            is_str (arg_token x))"
proof -
  have "arg_token x = js_or (provisioned_token e f) (JStr [])"
    using assms by (rule start_token)
  then show ?thesis
    by (cases "provisioned_token e f") (auto simp: js_or_def)
qed

text \<open>
  The amended C10 at the response \<open>{ result: { url, token } }\<close>.
\<close>

theorem join_token_witness:
  "Join \<lparr>arg_url = JStr ''https://team.daily.co/room1'', arg_token = JStr ''tok'',
         arg_videoSource = False, arg_startAudioOff = False\<rparr>
     \<in> set (fst (start env_server True (initial env_server) (Returns response_ok) Resolves)) \<and>
   provisioned_token env_server (Returns response_ok) = JStr ''tok''"
proof -
  have h: "Join \<lparr>arg_url = JStr ''https://team.daily.co/room1'', arg_token = JStr ''tok'',
         arg_videoSource = False, arg_startAudioOff = False\<rparr>
     \<in> set (fst (start env_server True (initial env_server) (Returns response_ok) Resolves))"
    by (simp add: cfg_eval start_eval)
  from join_token [OF h] h show ?thesis by (simp split: if_splits)
qed

section \<open>Leaving\<close>

text \<open>
  C7, as stated, fails: without a call object \<open>leave\<close> calls neither \<open>leave\<close> nor
  \<open>destroy\<close>; and when \<open>daily.leave()\<close> rejects, \<open>destroy\<close> is not called and the state is
  not changed.
\<close>

theorem leave_without_daily_or_rejected:
  "leave env_bare False Resolves Resolves = ([SetState Configuring], Returned) \<and>
   leave env_bare True Rejects Resolves = ([Leave], Threw)"
  by (simp add: leave_def cfg_eval)

text \<open>
  C7, amended: when the call object is present and both calls resolve, \<open>leave\<close> calls
  \<open>leave\<close> and then \<open>destroy\<close>, once each, before the state change; when the call object is
  absent it calls neither. In both cases the state becomes \<open>idle\<close> when
  \<open>showConfigOptions\<close> is set and \<open>configuring\<close> otherwise.
\<close>

theorem leave_settled:
  "leave e True Resolves Resolves =
     ([Leave, Destroy, SetState (if showConfigOptions e then Idle else Configuring)], Returned) \<and>
   leave e False l d =
     ([SetState (if showConfigOptions e then Idle else Configuring)], Returned) \<and>
   state (apply_effects (fst (leave e True Resolves Resolves)) a) =
     (if showConfigOptions e then Idle else Configuring) \<and>
   state (apply_effects (fst (leave e False l d)) a) =
     (if showConfigOptions e then Idle else Configuring)"
  by (simp add: leave_def start_state_def apply_effects_def)

text \<open>
  The amended C7 with the landing step shown.
\<close>

theorem leave_settled_witness:
  "leave env_landing True Resolves Resolves = ([Leave, Destroy, SetState Idle], Returned) \<and>
   leave env_landing False Resolves Resolves = ([SetState Idle], Returned)"
  using leave_settled [of env_landing Resolves Resolves "initial env_landing"]
  by (simp add: cfg_eval)

section \<open>Reachable states\<close>

text \<open>
  C8: \<open>started\<close> and \<open>finished\<close> are unreachable: every reachable component state has its
  \<open>state\<close> among \<open>idle\<close>, \<open>configuring\<close>, \<open>requesting_agent\<close>, \<open>connecting\<close>, \<open>connected\<close>
  and \<open>error\<close>, and no handler ever sets \<open>started\<close> or \<open>finished\<close>.
\<close>

theorem started_finished_unreachable:
  "(reachable e a \<longrightarrow>
      state a \<in> {Idle, Configuring, RequestingAgent, Connecting, Connected, Error}) \<and>
   (emits e b x \<longrightarrow> x \<noteq> SetState Started \<and> x \<noteq> SetState Finished)"
  using reachable_states [of e a] emits_states [of e b] by auto

text \<open>
  C8 at the state reached when \<open>start\<close> sets \<open>connecting\<close>.
\<close>

theorem started_finished_unreachable_witness:
  "reachable env_bare (apply_effect (SetState Connecting) (initial env_bare)) \<and>
   state (apply_effect (SetState Connecting) (initial env_bare)) = Connecting \<and>
   emits env_bare (initial env_bare) (SetState Connecting)"
proof -
  have "SetState Connecting
      \<in> set (fst (start env_bare True (initial env_bare) (Returns JUndefined) Resolves))"
    by (simp add: cfg_eval start_eval)
  then have em: "emits env_bare (initial env_bare) (SetState Connecting)"
    by (rule emits.emits_start)
  have re: "reachable env_bare (apply_effect (SetState Connecting) (initial env_bare))"
    using reachable.reachable_initial reachable.reachable_initial em
    by (rule reachable.reachable_effect)
  from started_finished_unreachable [of env_bare "apply_effect (SetState Connecting) (initial env_bare)"
      "initial env_bare" "SetState Connecting"] re em
  show ?thesis by simp
qed

end
